theory Spec2Isabelle
  imports Complex_Main "HOL-Library.Word"
begin

unbundle bit_operations_syntax

section \<open>The DOM renderer (browser/renderer/dom/DomRenderer.ts)\<close>

text \<open>
  Script numbers that hold pixel quantities are modelled as exact reals, counts and grid
  coordinates as integers. \<open>Math.ceil\<close> and \<open>Math.floor\<close> are \<open>ceiling\<close> and \<open>floor\<close>;
  \<open>Math.round\<close> rounds a half upwards. Quotients are those of the reals, so they agree with
  the script's only for a non-zero divisor.
\<close>

definition Math_round :: "real \<Rightarrow> real" where
  "Math_round x = of_int \<lfloor>x + 1 / 2\<rfloor>"

datatype js_error = TypeError

text \<open>A row \<open>div\<close>: the inline style properties the renderer assigns (\<open>None\<close>: never set).\<close>

record row_element =
  style_width :: "real option"
  style_height :: "real option"
  style_lineHeight :: "real option"
  style_overflow :: "string option"

definition createElement_div :: row_element where
  "createElement_div =
     \<lparr>style_width = None, style_height = None, style_lineHeight = None, style_overflow = None\<rparr>"

text \<open>A selection \<open>div\<close> as \<open>_createSelectionElement\<close> styles it (values in CSS pixels).\<close>

record selection_element =
  sel_height :: real
  sel_top :: real
  sel_left :: real
  sel_width :: real

text \<open>\<open>IRenderDimensions\<close>, flattened: \<open>device.char\<close>, \<open>device.cell\<close>, \<open>device.canvas\<close>,
  \<open>css.canvas\<close>, \<open>css.cell\<close>.\<close>

record render_dimensions =
  device_char_width :: real
  device_char_height :: real
  device_char_left :: real
  device_char_top :: real
  device_cell_width :: real
  device_cell_height :: real
  device_canvas_width :: real
  device_canvas_height :: real
  css_canvas_width :: real
  css_canvas_height :: real
  css_cell_width :: real
  css_cell_height :: real

text \<open>
  What the renderer reads from its services and from the page at the time of a call:
  the device pixel ratio, the measured character size, the options, the buffer geometry,
  whether the \<open>.xterm-helpers\<close> element exists, and the width the browser reports for
  the measuring span of a code point (the character repeated ten times).
\<close>

record services =
  dpr :: real
  charSize_width :: real
  charSize_height :: real
  letterSpacing :: real
  lineHeight :: real
  buffer_cols :: int
  buffer_rows :: int
  buffer_ydisp :: int
  helpers_present :: bool
  measured_width :: "nat \<Rightarrow> real"

text \<open>
  The renderer's own fields. The children of \<open>_rowContainer\<close> are not kept apart: every
  push to \<open>_rowElements\<close> comes with an \<open>appendChild\<close> and every pop with a
  \<open>removeChild\<close> of the same element. \<open>selectionContainer\<close> holds the children of
  \<open>_selectionContainer\<close>.
\<close>

record dom_renderer =
  rowElements :: "row_element list"
  selectionContainer :: "selection_element list"
  fontMetrics :: "8 word list"
  metricsPos :: nat
  dimensions :: render_dimensions

subsection \<open>\<open>_refreshRowElements\<close>, \<open>_updateDimensions\<close>, \<open>handleResize\<close>\<close>

text \<open>The loop \<open>for (let i = this._rowElements.length; i <= rows; i++)\<close>.\<close>

function add_missing :: "int \<Rightarrow> int \<Rightarrow> row_element list \<Rightarrow> row_element list" where
  "add_missing i rows els =
     (if i \<le> rows then add_missing (i + 1) rows (els @ [createElement_div]) else els)"
  by pat_completeness auto
termination
  by (relation "measure (\<lambda>(i, rows, els). nat (rows + 1 - i))") auto

declare add_missing.simps [simp del]

text \<open>
  The loop \<open>while (this._rowElements.length > rows)\<close>. \<open>pop()\<close> of an empty array is
  \<open>undefined\<close>, which \<open>removeChild\<close> rejects with a \<open>TypeError\<close>.
\<close>

function remove_excess :: "int \<Rightarrow> row_element list \<Rightarrow> js_error + row_element list" where
  "remove_excess rows els =
     (if int (length els) > rows
      then (if els = [] then Inl TypeError else remove_excess rows (butlast els))
      else Inr els)"
  by pat_completeness auto
termination
  by (relation "measure (\<lambda>(rows, els). length els)") auto

declare remove_excess.simps [simp del]

definition refreshRowElements :: "int \<Rightarrow> int \<Rightarrow> dom_renderer \<Rightarrow> js_error + dom_renderer" where
  "refreshRowElements cols rows st =
     (case remove_excess rows
             (add_missing (int (length (rowElements st))) rows (rowElements st)) of
        Inl e \<Rightarrow> Inl e
      | Inr els \<Rightarrow> Inr (st\<lparr>rowElements := els\<rparr>))"

definition updateDimensions :: "services \<Rightarrow> dom_renderer \<Rightarrow> dom_renderer" where
  "updateDimensions sv st =
     (let dchar_w = charSize_width sv * dpr sv;
          dchar_h = of_int \<lceil>charSize_height sv * dpr sv\<rceil>;
          dcell_w = dchar_w + Math_round (letterSpacing sv);
          dcell_h = of_int \<lfloor>dchar_h * lineHeight sv\<rfloor>;
          dcanvas_w = dcell_w * of_int (buffer_cols sv);
          dcanvas_h = dcell_h * of_int (buffer_rows sv);
          ccanvas_w = Math_round (dcanvas_w / dpr sv);
          ccanvas_h = Math_round (dcanvas_h / dpr sv);
          ccell_w = ccanvas_w / of_int (buffer_cols sv);
          ccell_h = ccanvas_h / of_int (buffer_rows sv)
      in st\<lparr>dimensions :=
               \<lparr>device_char_width = dchar_w, device_char_height = dchar_h,
                device_char_left = 0, device_char_top = 0,
                device_cell_width = dcell_w, device_cell_height = dcell_h,
                device_canvas_width = dcanvas_w, device_canvas_height = dcanvas_h,
                css_canvas_width = ccanvas_w, css_canvas_height = ccanvas_h,
                css_cell_width = ccell_w, css_cell_height = ccell_h\<rparr>,
             rowElements :=
               map (\<lambda>element. element\<lparr>style_width := Some ccanvas_w,
                                       style_height := Some ccell_h,
                                       style_lineHeight := Some ccell_h,
                                       style_overflow := Some ''hidden''\<rparr>)
                   (rowElements st)\<rparr>)"

definition handleResize :: "services \<Rightarrow> int \<Rightarrow> int \<Rightarrow> dom_renderer \<Rightarrow> js_error + dom_renderer" where
  "handleResize sv cols rows st =
     (case refreshRowElements cols rows st of
        Inl e \<Rightarrow> Inl e
      | Inr st' \<Rightarrow> Inr (updateDimensions sv st'))"

subsection \<open>\<open>handleSelectionChanged\<close>, \<open>_createSelectionElement\<close>\<close>

text \<open>The default of \<open>rowCount\<close> is 1; the callers below pass it explicitly.\<close>

definition createSelectionElement ::
    "dom_renderer \<Rightarrow> int \<Rightarrow> int \<Rightarrow> int \<Rightarrow> int \<Rightarrow> selection_element" where
  "createSelectionElement st row colStart colEnd rowCount =
     \<lparr>sel_height = of_int rowCount * css_cell_height (dimensions st),
      sel_top = of_int row * css_cell_height (dimensions st),
      sel_left = of_int colStart * css_cell_width (dimensions st),
      sel_width = css_cell_width (dimensions st) * of_int (colEnd - colStart)\<rparr>"

text \<open>
  A position is \<open>[column, row]\<close>, so \<open>start[0]\<close> is \<open>fst\<close> and \<open>start[1]\<close> is \<open>snd\<close>;
  \<open>undefined\<close> is \<open>None\<close>. The function first empties the selection container and, unless
  it returns early, appends the fragment of new elements to it. Its calls into the row
  factory and \<open>renderRows\<close> rebuild the contents of the row elements, which are not part
  of this model.
\<close>

definition handleSelectionChanged ::
    "services \<Rightarrow> (int \<times> int) option \<Rightarrow> (int \<times> int) option \<Rightarrow> bool \<Rightarrow>
     dom_renderer \<Rightarrow> dom_renderer" where
  "handleSelectionChanged sv start end' columnSelectMode st =
     (let st0 = st\<lparr>selectionContainer := []\<rparr> in
      case start of
        None \<Rightarrow> st0
      | Some s \<Rightarrow>
         (case end' of
            None \<Rightarrow> st0
          | Some e \<Rightarrow>
             (let viewportStartRow = snd s - buffer_ydisp sv;
                  viewportEndRow = snd e - buffer_ydisp sv;
                  viewportCappedStartRow = max viewportStartRow 0;
                  viewportCappedEndRow = min viewportEndRow (buffer_rows sv - 1)
              in if viewportCappedStartRow \<ge> buffer_rows sv \<or> viewportCappedEndRow < 0
                 then st0
                 else if columnSelectMode
                 then
                   (let isXFlipped = fst s > fst e
                    in st0\<lparr>selectionContainer :=
                         [createSelectionElement st0 viewportCappedStartRow
                            (if isXFlipped then fst e else fst s)
                            (if isXFlipped then fst s else fst e)
                            (viewportCappedEndRow - viewportCappedStartRow + 1)]\<rparr>)
                 else
                   (let startCol = (if viewportStartRow = viewportCappedStartRow
                                    then fst s else 0);
                        endCol = (if viewportCappedStartRow = viewportEndRow
                                  then fst e else buffer_cols sv);
                        firstRow = createSelectionElement st0 viewportCappedStartRow
                                     startCol endCol 1;
                        middleRowsCount = viewportCappedEndRow - viewportCappedStartRow - 1;
                        middleRows = createSelectionElement st0 (viewportCappedStartRow + 1)
                                       0 (buffer_cols sv) middleRowsCount;
                        finalRow =
                          (if viewportCappedStartRow \<noteq> viewportCappedEndRow
                           then (let endCol = (if viewportEndRow = viewportCappedEndRow
                                               then fst e else buffer_cols sv)
                                 in [createSelectionElement st0 viewportCappedEndRow
                                       0 endCol 1])
                           else [])
                    in st0\<lparr>selectionContainer := [firstRow, middleRows] @ finalRow\<rparr>))))"

subsection \<open>\<open>_batchedMetrics\<close>, \<open>_cacheMetrics\<close>\<close>

text \<open>
  The second loop of \<open>_batchedMetrics\<close>: \<open>collection\<close> is the list of measuring spans,
  each given by its code point, and \<open>pos\<close> is \<open>_metricsPos\<close>. A store into the typed array
  beyond its length has no effect, as a list update has none.
\<close>

function measure_collection ::
    "services \<Rightarrow> real \<Rightarrow> real \<Rightarrow> nat list \<Rightarrow> nat \<Rightarrow> nat \<Rightarrow> 8 word list \<Rightarrow> 8 word list" where
  "measure_collection sv lower upper collection pos i fm =
     (if i < length collection
      then (let width = measured_width sv (collection ! i)
            in measure_collection sv lower upper collection pos (i + 1)
                 (fm[i + pos := (if width < lower \<or> width > upper then 1 else 0)]))
      else fm)"
  by pat_completeness auto
termination
  by (relation "measure (\<lambda>(sv, lower, upper, collection, pos, i, fm). length collection - i)")
    auto

declare measure_collection.simps [simp del]

text \<open>
  \<open>FontMetrics.START = 32\<close>, \<open>MAX = 256\<close>, \<open>BATCH_SIZE = 30\<close>, \<open>THRESHOLD = 0.005\<close>.
  The first loop creates one span for each code point from \<open>_metricsPos\<close> up to \<open>end\<close>.
  The result pairs the returned boolean with the new state.
\<close>

definition batchedMetrics :: "services \<Rightarrow> dom_renderer \<Rightarrow> bool \<times> dom_renderer" where
  "batchedMetrics sv st =
     (if \<not> helpers_present sv then (False, st\<lparr>metricsPos := 32\<rparr>)
      else
        (let cellWidth = css_cell_width (dimensions st);
             lower = 10 * cellWidth * (1 - 0.005);
             upper = 10 * cellWidth * (1 + 0.005);
             end' = min (metricsPos st + 30) 256;
             collection = [metricsPos st..<end'];
             st1 = st\<lparr>fontMetrics :=
                        measure_collection sv lower upper collection (metricsPos st) 0
                          (fontMetrics st)\<rparr>;
             st2 = st1\<lparr>metricsPos := end'\<rparr>
         in if metricsPos st2 \<ge> 256 then (False, st2\<lparr>metricsPos := 32\<rparr>)
            else (True, st2)))"

text \<open>\<open>_cacheMetrics\<close>; the idle task queue that later calls \<open>_batchedMetrics\<close> is not
  modelled.\<close>

definition cacheMetrics :: "dom_renderer \<Rightarrow> dom_renderer" where
  "cacheMetrics st =
     st\<lparr>fontMetrics := map (\<lambda>_. 0xFF) (fontMetrics st), metricsPos := 32\<rparr>"

text \<open>Calling \<open>_batchedMetrics\<close> once for each element of a list of page states, in order,
  and collecting what the calls return.\<close>

fun run_batches :: "services list \<Rightarrow> dom_renderer \<Rightarrow> bool list \<times> dom_renderer" where
  "run_batches [] st = ([], st)"
| "run_batches (sv # svs) st =
     (case batchedMetrics sv st of
        (again, st') \<Rightarrow> (case run_batches svs st' of (rs, st'') \<Rightarrow> (again # rs, st'')))"

subsection \<open>Example inputs\<close>

definition example_dimensions :: render_dimensions where
  "example_dimensions =
     \<lparr>device_char_width = 9, device_char_height = 17, device_char_left = 0,
      device_char_top = 0, device_cell_width = 9, device_cell_height = 17,
      device_canvas_width = 720, device_canvas_height = 408,
      css_canvas_width = 720, css_canvas_height = 408,
      css_cell_width = 9, css_cell_height = 17\<rparr>"

definition example_services :: services where
  "example_services =
     \<lparr>dpr = 1, charSize_width = 9, charSize_height = 17, letterSpacing = 0, lineHeight = 1,
      buffer_cols = 80, buffer_rows = 24, buffer_ydisp = 0, helpers_present = True,
      measured_width = (\<lambda>code. if code = 173 then 0 else 90)\<rparr>"

definition example_renderer :: dom_renderer where
  "example_renderer =
     \<lparr>rowElements = [], selectionContainer = [], fontMetrics = replicate 256 0,
      metricsPos = 32, dimensions = example_dimensions\<rparr>"


section \<open>The foreground render layer (\<open>ForegroundRenderLayer\<close>, \<open>CharAtlasGenerator\<close>)\<close>

text \<open>
  A script string is its list of UTF-16 code units. The values the code gives to the
  drawing context are kept symbolic: \<open>Courier px\<close> is the font string
  \<open>`${px}px courier`\<close> and \<open>Bold f\<close> is \<open>`bold ${f}`\<close>; \<open>White\<close> is \<open>'#ffffff'\<close> and
  \<open>Tango i\<close> is \<open>TANGO_COLORS[i]\<close>, a table imported from a module outside these
  sources; the \<open>Default\<close> values are those of a fresh context.
\<close>

type_synonym js_string = "nat list"

datatype font = DefaultFont | Courier real | Bold font

datatype fill_style = DefaultFill | White | Tango nat

datatype text_baseline = Alphabetic | Top

text \<open>
  The drawing calls made on a 2D context, in order. \<open>FillText\<close> records the fill style
  and the font current at the call; \<open>DrawImage img sx sy sw sh dx dy dw dh\<close> copies a
  source rectangle of \<open>img\<close> to a destination rectangle.
\<close>

datatype 'img draw_op =
    ClearRect real real real real
  | FillText js_string real real fill_style font
  | DrawImage 'img real real real real real real real real

text \<open>
  An \<open>ImageBitmap\<close> made from the generator's canvas: the size assigned to the canvas and
  the drawing calls that painted it. Assigning the canvas width also blanks the canvas, so
  a bitmap holds the calls of one \<open>generate\<close> only. What the browser does with the numbers
  it is given (the integer conversion of a canvas size, clipping at the canvas edge, its
  errors for a zero-sized image) is not part of the model.
\<close>

record image_bitmap =
  bm_width :: real
  bm_height :: real
  bm_content :: "unit draw_op list"

record char_atlas_generator =
  gen_canvas_width :: real
  gen_canvas_height :: real

text \<open>
  The layer: its canvas, the state of its context with the calls drawn so far, the atlas,
  the generator, and the bitmaps of the \<open>generate\<close> promises whose \<open>then\<close> callback has
  not run yet, oldest first.
\<close>

record fg_layer =
  canvas_width :: real
  canvas_height :: real
  canvas_style_width :: real
  canvas_style_height :: real
  ctx_fillStyle :: fill_style
  ctx_textBaseline :: text_baseline
  ctx_font :: font
  ctx_ops :: "image_bitmap draw_op list"
  charAtlas :: "image_bitmap option"
  charAtlasGenerator :: char_atlas_generator
  pending :: "image_bitmap list"

text \<open>
  A cell of a buffer line is the tuple indexed by \<open>CHAR_DATA_ATTR_INDEX\<close>,
  \<open>CHAR_DATA_CHAR_INDEX\<close>, \<open>CHAR_DATA_WIDTH_INDEX\<close> and \<open>CHAR_DATA_CODE_INDEX\<close>.
\<close>

record char_data =
  cd_attr :: int
  cd_char :: js_string
  cd_width :: int
  cd_code :: nat

record terminal =
  t_cols :: int
  charMeasure_width :: real
  charMeasure_height :: real
  t_ydisp :: int
  t_lines :: "char_data list list"

text \<open>\<open>terminal.buffer.lines.get(row)\<close>: \<open>undefined\<close> (\<open>None\<close>) outside the stored lines.\<close>

definition lines_get :: "terminal \<Rightarrow> int \<Rightarrow> char_data list option" where
  "lines_get t row =
     (if 0 \<le> row \<and> nat row < length (t_lines t) then Some (t_lines t ! nat row) else None)"

subsection \<open>\<open>CharAtlasGenerator.generate\<close>\<close>

text \<open>The inner loops \<open>for (let i = 0; i < 256; i++)\<close>: one \<open>fillText\<close> of
  \<open>String.fromCharCode(i)\<close> for each code.\<close>

definition draw_ascii :: "real \<Rightarrow> real \<Rightarrow> fill_style \<Rightarrow> font \<Rightarrow> unit draw_op list" where
  "draw_ascii scaledCharWidth y fillStyle fnt =
     map (\<lambda>i. FillText [i] (of_nat i * scaledCharWidth) y fillStyle fnt) [0..<256]"

text \<open>The loop over \<open>colorIndex\<close>, which carries the font of the context along.\<close>

function color_rows ::
    "real \<Rightarrow> real \<Rightarrow> real \<Rightarrow> nat \<Rightarrow> font \<Rightarrow> unit draw_op list \<Rightarrow> font \<times> unit draw_op list" where
  "color_rows scaledCharWidth scaledCharHeight width colorIndex fnt ops =
     (if colorIndex < 16
      then (let fnt' = (if colorIndex = 8 then Bold fnt else fnt);
                y = of_nat (colorIndex + 1) * scaledCharHeight
            in color_rows scaledCharWidth scaledCharHeight width (colorIndex + 1) fnt'
                 (ops @ [ClearRect 0 y width scaledCharHeight] @
                  draw_ascii scaledCharWidth y (Tango colorIndex) fnt'))
      else (fnt, ops))"
  by pat_completeness auto
termination
  by (relation "measure (\<lambda>(w, h, cw, colorIndex, fnt, ops). 16 - colorIndex)") auto

declare color_rows.simps [simp del]

text \<open>
  \<open>generate\<close>, with \<open>window.devicePixelRatio\<close> as first argument. The result is the
  generator after the call and the bitmap the returned promise resolves with.
\<close>

definition generate ::
    "real \<Rightarrow> char_atlas_generator \<Rightarrow> real \<Rightarrow> real \<Rightarrow> char_atlas_generator \<times> image_bitmap" where
  "generate devicePixelRatio g charWidth charHeight =
     (let scaledCharWidth = of_int \<lceil>charWidth\<rceil> * devicePixelRatio;
          scaledCharHeight = of_int \<lceil>charHeight\<rceil> * devicePixelRatio;
          width = 255 * scaledCharWidth;
          height = (1 + 16) * scaledCharHeight;
          fnt = Courier (16 * devicePixelRatio);
          default_row = draw_ascii scaledCharWidth 0 White fnt;
          ops = snd (color_rows scaledCharWidth scaledCharHeight width 0 fnt default_row)
      in (g\<lparr>gen_canvas_width := width, gen_canvas_height := height\<rparr>,
          \<lparr>bm_width = width, bm_height = height, bm_content = ops\<rparr>))"

subsection \<open>\<open>ForegroundRenderLayer.resize\<close> and the atlas promise\<close>

definition resize :: "real \<Rightarrow> terminal \<Rightarrow> real \<Rightarrow> real \<Rightarrow> bool \<Rightarrow> fg_layer \<Rightarrow> fg_layer" where
  "resize devicePixelRatio t canvasWidth canvasHeight charSizeChanged L =
     (let L1 = L\<lparr>canvas_width := canvasWidth * devicePixelRatio,
                 canvas_height := canvasHeight * devicePixelRatio,
                 canvas_style_width := canvasWidth,
                 canvas_style_height := canvasHeight\<rparr>
      in if charSizeChanged
         then (case generate devicePixelRatio (charAtlasGenerator L1)
                      (charMeasure_width t) (charMeasure_height t) of
                 (g, bitmap) \<Rightarrow>
                   L1\<lparr>charAtlas := None, charAtlasGenerator := g,
                      pending := pending L1 @ [bitmap]\<rparr>)
         else L1)"

text \<open>
  The \<open>then\<close> callback \<open>bitmap => { this._charAtlas = bitmap; }\<close>, run when the promise
  at position \<open>k\<close> of the pending ones resolves.
\<close>

definition atlas_resolved :: "nat \<Rightarrow> fg_layer \<Rightarrow> fg_layer" where
  "atlas_resolved k L =
     (if k < length (pending L)
      then L\<lparr>charAtlas := Some (pending L ! k),
             pending := take k (pending L) @ drop (Suc k) (pending L)\<rparr>
      else L)"

subsection \<open>\<open>ForegroundRenderLayer.render\<close>\<close>

definition drawUnicodeChar ::
    "real \<Rightarrow> js_string \<Rightarrow> int \<Rightarrow> nat \<Rightarrow> nat \<Rightarrow> int \<Rightarrow> real \<Rightarrow> real \<Rightarrow> fg_layer \<Rightarrow> fg_layer" where
  "drawUnicodeChar devicePixelRatio char width fg x y scaledCharWidth scaledCharHeight L =
     (let fnt = Courier (16 * devicePixelRatio);
          fillStyle = (if fg < 16 then Tango fg else White)
      in L\<lparr>ctx_ops := ctx_ops L @
             [FillText char (of_nat x * scaledCharWidth) (of_int y * scaledCharHeight)
                fillStyle fnt]\<rparr>)"

text \<open>
  The bit operators work on the 32-bit two's complement value of \<open>attr\<close>; \<open>>>\<close> is the
  arithmetic shift. \<open>FLAGS.BOLD\<close> is imported from a module outside these sources and is
  the parameter \<open>BOLD\<close>.
\<close>

definition cell_fg :: "int \<Rightarrow> nat" where
  "cell_fg attr = unat (signed_drop_bit 9 (word_of_int attr :: 32 word) AND 0x1ff)"

definition cell_flags :: "int \<Rightarrow> 32 word" where
  "cell_flags attr = signed_drop_bit 18 (word_of_int attr :: 32 word)"

definition cell_bold :: "int \<Rightarrow> int \<Rightarrow> bool" where
  "cell_bold BOLD attr \<longleftrightarrow> cell_flags attr AND word_of_int BOLD \<noteq> 0"

text \<open>The value of \<open>fg\<close> after the bold conversion, and \<open>colorIndex\<close>.\<close>

definition cell_bold_fg :: "int \<Rightarrow> int \<Rightarrow> nat" where
  "cell_bold_fg BOLD attr =
     (if cell_bold BOLD attr \<and> cell_fg attr < 8 then cell_fg attr + 8 else cell_fg attr)"

definition cell_colorIndex :: "int \<Rightarrow> int \<Rightarrow> nat" where
  "cell_colorIndex BOLD attr =
     (if cell_bold_fg BOLD attr < 16 then cell_bold_fg BOLD attr + 1 else 0)"

text \<open>The body of the loop over \<open>x\<close>, for the cell \<open>line[x]\<close>; \<open>atlas\<close> is \<open>this._charAtlas\<close>.\<close>

definition render_cell ::
    "real \<Rightarrow> int \<Rightarrow> image_bitmap \<Rightarrow> real \<Rightarrow> real \<Rightarrow> char_data \<Rightarrow> nat \<Rightarrow> int \<Rightarrow>
     fg_layer \<Rightarrow> fg_layer" where
  "render_cell devicePixelRatio BOLD atlas scaledCharWidth scaledCharHeight cell x y L =
     (let code = cd_code cell
      in if code = 0 then L
         else
           (let attr = cd_attr cell;
                L1 = (if cell_bold BOLD attr then L\<lparr>ctx_font := Bold (ctx_font L)\<rparr> else L);
                fg = cell_bold_fg BOLD attr;
                colorIndex = cell_colorIndex BOLD attr
            in if code < 256
               then L1\<lparr>ctx_ops := ctx_ops L1 @
                        [DrawImage atlas (of_nat code * scaledCharWidth)
                           (of_nat colorIndex * scaledCharHeight)
                           scaledCharWidth scaledCharHeight
                           (of_nat x * scaledCharWidth) (of_int y * scaledCharHeight)
                           scaledCharWidth scaledCharHeight]\<rparr>
               else drawUnicodeChar devicePixelRatio (cd_char cell) (cd_width cell) fg x y
                      scaledCharWidth scaledCharHeight L1))"

text \<open>
  The loop \<open>for (let x = 0; x < terminal.cols; x++)\<close>. Reading a cell of an \<open>undefined\<close>
  line, or a field of an \<open>undefined\<close> cell, throws a \<open>TypeError\<close>.
\<close>

function render_line ::
    "real \<Rightarrow> int \<Rightarrow> image_bitmap \<Rightarrow> real \<Rightarrow> real \<Rightarrow> char_data list option \<Rightarrow> int \<Rightarrow> int \<Rightarrow>
     nat \<Rightarrow> fg_layer \<Rightarrow> js_error + fg_layer" where
  "render_line devicePixelRatio BOLD atlas scw sch line y cols x L =
     (if int x < cols
      then (case line of
              None \<Rightarrow> Inl TypeError
            | Some cells \<Rightarrow>
                if x < length cells
                then render_line devicePixelRatio BOLD atlas scw sch line y cols (x + 1)
                       (render_cell devicePixelRatio BOLD atlas scw sch (cells ! x) x y L)
                else Inl TypeError)
      else Inr L)"
  by pat_completeness auto
termination
  by (relation "measure (\<lambda>(d, b, a, w, h, line, y, cols, x, L). nat (cols - int x))") auto

declare render_line.simps [simp del]

text \<open>The loop \<open>for (let y = startRow; y <= endRow; y++)\<close>.\<close>

function render_rows ::
    "real \<Rightarrow> int \<Rightarrow> image_bitmap \<Rightarrow> real \<Rightarrow> real \<Rightarrow> terminal \<Rightarrow> int \<Rightarrow> int \<Rightarrow>
     fg_layer \<Rightarrow> js_error + fg_layer" where
  "render_rows devicePixelRatio BOLD atlas scw sch t y endRow L =
     (if y \<le> endRow
      then (let row = y + t_ydisp t;
                line = lines_get t row
            in case render_line devicePixelRatio BOLD atlas scw sch line y (t_cols t) 0 L of
                 Inl e \<Rightarrow> Inl e
               | Inr L' \<Rightarrow> render_rows devicePixelRatio BOLD atlas scw sch t (y + 1) endRow L')
      else Inr L)"
  by pat_completeness auto
termination
  by (relation "measure (\<lambda>(d, b, a, w, h, t, y, endRow, L). nat (endRow + 1 - y))") auto

declare render_rows.simps [simp del]

definition render :: "real \<Rightarrow> int \<Rightarrow> terminal \<Rightarrow> int \<Rightarrow> int \<Rightarrow> fg_layer \<Rightarrow> js_error + fg_layer" where
  "render devicePixelRatio BOLD t startRow endRow L =
     (let scaledCharWidth = of_int \<lceil>charMeasure_width t\<rceil> * devicePixelRatio;
          scaledCharHeight = of_int \<lceil>charMeasure_height t\<rceil> * devicePixelRatio
      in case charAtlas L of
           None \<Rightarrow> Inr L
         | Some atlas \<Rightarrow>
            (let L1 = L\<lparr>ctx_fillStyle := White, ctx_textBaseline := Top,
                        ctx_font := Courier (16 * devicePixelRatio)\<rparr>;
                 L2 = L1\<lparr>ctx_ops := ctx_ops L1 @
                          [ClearRect 0 (of_int startRow * scaledCharHeight)
                             (scaledCharWidth * of_int (t_cols t))
                             (of_int (endRow - startRow + 1) * scaledCharHeight)]\<rparr>
             in render_rows devicePixelRatio BOLD atlas scaledCharWidth scaledCharHeight
                  t startRow endRow L2))"

text \<open>The cell a drawing call paints at: the destination corner of a blit or of a text.\<close>

fun op_dest :: "'img draw_op \<Rightarrow> (real \<times> real) option" where
  "op_dest (ClearRect x y w h) = None"
| "op_dest (FillText s x y c f) = Some (x, y)"
| "op_dest (DrawImage img sx sy sw sh dx dy dw dh) = Some (dx, dy)"

subsection \<open>Example inputs\<close>

definition example_layer :: fg_layer where
  "example_layer =
     \<lparr>canvas_width = 0, canvas_height = 0, canvas_style_width = 0, canvas_style_height = 0,
      ctx_fillStyle = DefaultFill, ctx_textBaseline = Alphabetic, ctx_font = DefaultFont,
      ctx_ops = [], charAtlas = None,
      charAtlasGenerator = \<lparr>gen_canvas_width = 0, gen_canvas_height = 0\<rparr>,
      pending = []\<rparr>"

definition example_atlas :: image_bitmap where
  "example_atlas = \<lparr>bm_width = 2550, bm_height = 340, bm_content = []\<rparr>"

definition example_cell :: "int \<Rightarrow> nat \<Rightarrow> char_data" where
  "example_cell attr code = \<lparr>cd_attr = attr, cd_char = [code], cd_width = 1, cd_code = code\<rparr>"

definition example_terminal :: terminal where
  "example_terminal =
     \<lparr>t_cols = 2, charMeasure_width = 10, charMeasure_height = 20, t_ydisp = 0,
      t_lines = [[example_cell 512 65, example_cell 0 0]]\<rparr>"

definition example_terminal2 :: terminal where
  "example_terminal2 = example_terminal\<lparr>charMeasure_width := 12, charMeasure_height := 24\<rparr>"

section \<open>Row elements\<close>

lemma length_add_missing:
  "length (add_missing i rows els) = length els + nat (rows + 1 - i)"
proof (induction i rows els rule: add_missing.induct)
  case (1 i rows els)
  show ?case
  proof (cases "i \<le> rows")
    case True
    with "1.IH" show ?thesis by (subst add_missing.simps) simp
  next
    case False
    then show ?thesis by (subst add_missing.simps) simp
  qed
qed

lemma remove_excess_length:
  "0 \<le> rows \<Longrightarrow>
   \<exists>els'. remove_excess rows els = Inr els' \<and>
          length els' = min (length els) (nat rows)"
proof (induction rows els rule: remove_excess.induct)
  case (1 rows els)
  show ?case
  proof (cases "int (length els) > rows")
    case True
    with "1.prems" have ne: "els \<noteq> []" by auto
    from "1.IH" [OF True ne "1.prems"] obtain els' where
      r: "remove_excess rows (butlast els) = Inr els'"
      and l: "length els' = min (length (butlast els)) (nat rows)" by blast
    from True ne r have "remove_excess rows els = Inr els'"
      by (subst remove_excess.simps) simp
    moreover from True l "1.prems" have "length els' = min (length els) (nat rows)"
      by (simp add: min_def) linarith
    ultimately show ?thesis by blast
  next
    case False
    then show ?thesis by (subst remove_excess.simps) (auto simp: min_def)
  qed
qed

lemma length_updateDimensions:
  "length (rowElements (updateDimensions sv st)) = length (rowElements st)"
  by (simp add: updateDimensions_def Let_def)

text \<open>
  C10. After \<open>_refreshRowElements\<close> with \<open>rows \<ge> 0\<close>, from any state (the empty array of
  the constructor included), and after \<open>handleResize\<close>, the renderer holds exactly \<open>rows\<close>
  row elements: the grow loop, which runs while \<open>i \<le> rows\<close>, leaves \<open>rows + 1\<close> elements
  when it starts from at most \<open>rows\<close>, and the shrink loop removes the excess, whether the
  terminal grew, shrank or kept its size.
\<close>

theorem refreshRowElements_length:
  assumes "0 \<le> rows"
  shows "(int (length (rowElements st)) \<le> rows \<longrightarrow>
            length (add_missing (int (length (rowElements st))) rows (rowElements st)) =
              nat rows + 1) \<and>
         (\<exists>st'. refreshRowElements cols rows st = Inr st' \<and>
                length (rowElements st') = nat rows) \<and>
         (\<exists>st'. handleResize sv cols rows st = Inr st' \<and>
                length (rowElements st') = nat rows)"
proof -
  let ?grown = "add_missing (int (length (rowElements st))) rows (rowElements st)"
  from remove_excess_length [OF assms, of ?grown] obtain els' where
    r: "remove_excess rows ?grown = Inr els'"
    and l: "length els' = min (length ?grown) (nat rows)" by blast
  have over: "int (length (rowElements st)) \<le> rows \<longrightarrow> length ?grown = nat rows + 1"
    using assms by (simp add: length_add_missing) linarith
  have "length ?grown \<ge> nat rows"
    using assms by (simp add: length_add_missing)
  with l have l': "length els' = nat rows" by simp
  from r have eq: "refreshRowElements cols rows st = Inr (st\<lparr>rowElements := els'\<rparr>)"
    by (simp add: refreshRowElements_def)
  from eq l' have first: "\<exists>st'. refreshRowElements cols rows st = Inr st' \<and>
      length (rowElements st') = nat rows" by simp
  from eq l' have "\<exists>st'. handleResize sv cols rows st = Inr st' \<and>
      length (rowElements st') = nat rows"
    by (simp add: handleResize_def length_updateDimensions)
  with first over show ?thesis by blast
qed


theorem refreshRowElements_length_witness:
  "(0::int) \<le> 24 \<and>
   length (add_missing 0 24 []) = 25 \<and>
   (\<exists>st'. refreshRowElements 80 24 example_renderer = Inr st' \<and>
          length (rowElements st') = nat 24) \<and>
   (\<exists>st'. handleResize example_services 80 24 example_renderer = Inr st' \<and>
          length (rowElements st') = nat 24)"
  using refreshRowElements_length [of 24 example_renderer 80 example_services]
  by (simp add: example_renderer_def)

section \<open>Selection geometry\<close>

lemma createSelectionElement_container [simp]:
  "createSelectionElement (st\<lparr>selectionContainer := xs\<rparr>) = createSelectionElement st"
  by (intro ext) (simp add: createSelectionElement_def)

lemma selection_visible:
  assumes "0 \<le> snd s - buffer_ydisp sv" "snd s - buffer_ydisp sv < buffer_rows sv"
    and "0 \<le> snd e - buffer_ydisp sv" "snd e - buffer_ydisp sv < buffer_rows sv"
  shows "selectionContainer (handleSelectionChanged sv (Some s) (Some e) False st) =
           [createSelectionElement st (snd s - buffer_ydisp sv) (fst s)
              (if snd s = snd e then fst e else buffer_cols sv) 1,
            createSelectionElement st (snd s - buffer_ydisp sv + 1) 0 (buffer_cols sv)
              (snd e - snd s - 1)] @
           (if snd s \<noteq> snd e
            then [createSelectionElement st (snd e - buffer_ydisp sv) 0 (fst e) 1] else [])"
  using assms by (simp add: handleSelectionChanged_def Let_def max_def min_def)

lemma selection_column_mode:
  assumes "max (snd s - buffer_ydisp sv) 0 < buffer_rows sv"
    and "0 \<le> min (snd e - buffer_ydisp sv) (buffer_rows sv - 1)"
  shows "selectionContainer (handleSelectionChanged sv (Some s) (Some e) True st) =
           [createSelectionElement st (max (snd s - buffer_ydisp sv) 0)
              (min (fst s) (fst e)) (max (fst s) (fst e))
              (min (snd e - buffer_ydisp sv) (buffer_rows sv - 1) -
               max (snd s - buffer_ydisp sv) 0 + 1)]"
  using assms by (simp add: handleSelectionChanged_def Let_def max_def min_def)

lemma selection_length_range_mode:
  assumes "max (snd s - buffer_ydisp sv) 0 < buffer_rows sv"
    and "0 \<le> min (snd e - buffer_ydisp sv) (buffer_rows sv - 1)"
  shows "length (selectionContainer (handleSelectionChanged sv (Some s) (Some e) False st)) =
           (if max (snd s - buffer_ydisp sv) 0 = min (snd e - buffer_ydisp sv) (buffer_rows sv - 1)
            then 2 else 3)"
  using assms by (simp add: handleSelectionChanged_def Let_def) arith

lemma sel_height_create [simp]:
  "sel_height (createSelectionElement st row c1 c2 n) = of_int n * css_cell_height (dimensions st)"
  by (simp add: createSelectionElement_def)

lemma sel_left_create [simp]:
  "sel_left (createSelectionElement st row c1 c2 n) = of_int c1 * css_cell_width (dimensions st)"
  by (simp add: createSelectionElement_def)

lemma sel_width_create [simp]:
  "sel_width (createSelectionElement st row c1 c2 n) =
     css_cell_width (dimensions st) * of_int (c2 - c1)"
  by (simp add: createSelectionElement_def)

lemma selection_swap_rows_differ:
  assumes va: "0 \<le> snd a - buffer_ydisp sv" "snd a - buffer_ydisp sv < buffer_rows sv"
    and vb: "0 \<le> snd b - buffer_ydisp sv" "snd b - buffer_ydisp sv < buffer_rows sv"
    and ch: "0 < css_cell_height (dimensions st)"
    and lt: "snd a < snd b"
  shows "set (selectionContainer (handleSelectionChanged sv (Some a) (Some b) False st)) \<noteq>
         set (selectionContainer (handleSelectionChanged sv (Some b) (Some a) False st))"
proof
  let ?A = "selectionContainer (handleSelectionChanged sv (Some a) (Some b) False st)"
  let ?B = "selectionContainer (handleSelectionChanged sv (Some b) (Some a) False st)"
  let ?m = "createSelectionElement st (snd b - buffer_ydisp sv + 1) 0 (buffer_cols sv)
              (snd a - snd b - 1)"
  assume eq: "set ?A = set ?B"
  have "?m \<in> set ?B"
    using lt by (simp add: selection_visible [OF vb va])
  with eq have "?m \<in> set ?A" by simp
  moreover have "\<forall>x \<in> set ?A. 0 \<le> sel_height x"
    using lt ch by (simp add: selection_visible [OF va vb])
  ultimately have "0 \<le> sel_height ?m" by blast
  then have "0 \<le> real_of_int (snd a - snd b - 1) * css_cell_height (dimensions st)"
    by simp
  with ch have "0 \<le> real_of_int (snd a - snd b - 1)"
    by (simp add: zero_le_mult_iff)
  with lt show False by simp
qed

lemma selection_swap_same_row:
  assumes va: "0 \<le> snd a - buffer_ydisp sv" "snd a - buffer_ydisp sv < buffer_rows sv"
    and row: "snd a = snd b"
    and cw: "0 < css_cell_width (dimensions st)"
    and ch: "0 < css_cell_height (dimensions st)"
    and eq: "set (selectionContainer (handleSelectionChanged sv (Some a) (Some b) False st)) =
             set (selectionContainer (handleSelectionChanged sv (Some b) (Some a) False st))"
  shows "fst a = fst b"
proof -
  let ?f = "\<lambda>c1 c2. createSelectionElement st (snd a - buffer_ydisp sv) c1 c2 1"
  let ?m = "createSelectionElement st (snd a - buffer_ydisp sv + 1) 0 (buffer_cols sv) (- 1)"
  from va row have vb: "0 \<le> snd b - buffer_ydisp sv" "snd b - buffer_ydisp sv < buffer_rows sv"
    by simp_all
  have A: "selectionContainer (handleSelectionChanged sv (Some a) (Some b) False st) =
             [?f (fst a) (fst b), ?m]"
    using row by (simp add: selection_visible [OF va vb])
  have B: "selectionContainer (handleSelectionChanged sv (Some b) (Some a) False st) =
             [?f (fst b) (fst a), ?m]"
    using row by (simp add: selection_visible [OF vb va])
  from eq have "?f (fst a) (fst b) \<in> {?f (fst b) (fst a), ?m}"
    unfolding A B by auto
  moreover have "?f (fst a) (fst b) \<noteq> ?m"
  proof
    assume "?f (fst a) (fst b) = ?m"
    then have "sel_height (?f (fst a) (fst b)) = sel_height ?m" by (rule arg_cong)
    with ch show False by simp
  qed
  ultimately have "?f (fst a) (fst b) = ?f (fst b) (fst a)" by blast
  then have "sel_left (?f (fst a) (fst b)) = sel_left (?f (fst b) (fst a))" by (rule arg_cong)
  with cw show ?thesis by simp
qed

text \<open>
  C6, as the code has it. For a selection whose rows meet the viewport: in column mode the
  selection container receives exactly one element. In range mode, a selection whose start
  and end lie on the same row gives two elements: the one-row rectangle from the start
  column to the end column, followed by the middle-rows element, whose row count is \<open>-1\<close>.
  A range-mode selection covering more than two viewport rows gives exactly three elements.
\<close>

theorem handleSelectionChanged_count:
  assumes "0 < buffer_rows sv"
    and "snd s - buffer_ydisp sv < buffer_rows sv"
    and "0 \<le> snd e - buffer_ydisp sv"
  shows "length (selectionContainer (handleSelectionChanged sv (Some s) (Some e) True st)) = 1 \<and>
         (snd s = snd e \<longrightarrow>
            selectionContainer (handleSelectionChanged sv (Some s) (Some e) False st) =
              [createSelectionElement st (snd s - buffer_ydisp sv) (fst s) (fst e) 1,
               createSelectionElement st (snd s - buffer_ydisp sv + 1) 0 (buffer_cols sv) (- 1)]) \<and>
         (2 < min (snd e - buffer_ydisp sv) (buffer_rows sv - 1) -
              max (snd s - buffer_ydisp sv) 0 + 1 \<longrightarrow>
            length (selectionContainer
                      (handleSelectionChanged sv (Some s) (Some e) False st)) = 3)"
proof -
  from assms have a: "max (snd s - buffer_ydisp sv) 0 < buffer_rows sv"
    and b: "0 \<le> min (snd e - buffer_ydisp sv) (buffer_rows sv - 1)" by simp_all
  have c1: "length (selectionContainer (handleSelectionChanged sv (Some s) (Some e) True st)) = 1"
    by (simp add: selection_column_mode [OF a b])
  have c2: "snd s = snd e \<longrightarrow>
            selectionContainer (handleSelectionChanged sv (Some s) (Some e) False st) =
              [createSelectionElement st (snd s - buffer_ydisp sv) (fst s) (fst e) 1,
               createSelectionElement st (snd s - buffer_ydisp sv + 1) 0 (buffer_cols sv) (- 1)]"
    using assms by (auto simp: selection_visible)
  have c3: "2 < min (snd e - buffer_ydisp sv) (buffer_rows sv - 1) -
              max (snd s - buffer_ydisp sv) 0 + 1 \<longrightarrow>
            length (selectionContainer
                      (handleSelectionChanged sv (Some s) (Some e) False st)) = 3"
    by (simp add: selection_length_range_mode [OF a b])
  from c1 c2 c3 show ?thesis by blast
qed

theorem handleSelectionChanged_count_witness:
  "length (selectionContainer (handleSelectionChanged example_services (Some (5, 3)) (Some (2, 7)) True example_renderer)) = 1 \<and>
   selectionContainer (handleSelectionChanged example_services (Some (1, 0)) (Some (2, 0)) False example_renderer) =
     [createSelectionElement example_renderer 0 1 2 1, createSelectionElement example_renderer 1 0 80 (- 1)] \<and>
   length (selectionContainer (handleSelectionChanged example_services (Some (5, 3)) (Some (2, 7)) False example_renderer)) = 3"
  using handleSelectionChanged_count [of example_services "(5, 3)" "(2, 7)" example_renderer]
    handleSelectionChanged_count [of example_services "(1, 0)" "(2, 0)" example_renderer]
  by (simp add: example_services_def)

text \<open>
  C6 as stated fails for the same-row case: the selection from \<open>(1, 0)\<close> to \<open>(2, 0)\<close>
  creates two elements, the second with the height of \<open>-1\<close> row.
\<close>

theorem same_row_selection_two_elements:
  "length (selectionContainer
             (handleSelectionChanged example_services (Some (1, 0)) (Some (2, 0)) False
                example_renderer)) = 2 \<and>
   sel_height (selectionContainer
                 (handleSelectionChanged example_services (Some (1, 0)) (Some (2, 0)) False
                    example_renderer) ! 1) = - 17"
  by (simp add: handleSelectionChanged_def example_services_def Let_def
      createSelectionElement_def example_renderer_def example_dimensions_def)

text \<open>
  C1, as the code has it. In range mode the start and the end are used in the order given.
  When both rows are visible and the cell size is positive, exchanging start and end gives
  the same set of rectangles only if start and end are the same position; and the first
  rectangle of a same-row selection has the width of \<open>end column - start column\<close> cells,
  which is positive only if the start column is the smaller one.
\<close>

theorem handleSelectionChanged_swap:
  assumes va: "0 \<le> snd a - buffer_ydisp sv" "snd a - buffer_ydisp sv < buffer_rows sv"
    and vb: "0 \<le> snd b - buffer_ydisp sv" "snd b - buffer_ydisp sv < buffer_rows sv"
    and cw: "0 < css_cell_width (dimensions st)"
    and ch: "0 < css_cell_height (dimensions st)"
  shows "(set (selectionContainer (handleSelectionChanged sv (Some a) (Some b) False st)) =
          set (selectionContainer (handleSelectionChanged sv (Some b) (Some a) False st))
          \<longleftrightarrow> a = b) \<and>
         (snd a = snd b \<longrightarrow>
            sel_width (hd (selectionContainer
                             (handleSelectionChanged sv (Some a) (Some b) False st))) =
              css_cell_width (dimensions st) * of_int (fst b - fst a))"
proof -
  have "a = b"
    if eq: "set (selectionContainer (handleSelectionChanged sv (Some a) (Some b) False st)) =
            set (selectionContainer (handleSelectionChanged sv (Some b) (Some a) False st))"
  proof -
    have "\<not> snd a < snd b"
      using selection_swap_rows_differ [OF va vb ch] eq by blast
    moreover have "\<not> snd b < snd a"
      using selection_swap_rows_differ [OF vb va ch] eq by force
    ultimately have row: "snd a = snd b" by simp
    from selection_swap_same_row [OF va row cw ch eq] have "fst a = fst b" .
    with row show ?thesis by (simp add: prod_eq_iff)
  qed
  then have first: "set (selectionContainer (handleSelectionChanged sv (Some a) (Some b) False st)) =
          set (selectionContainer (handleSelectionChanged sv (Some b) (Some a) False st))
          \<longleftrightarrow> a = b" by blast
  have "snd a = snd b \<longrightarrow>
            sel_width (hd (selectionContainer
                             (handleSelectionChanged sv (Some a) (Some b) False st))) =
              css_cell_width (dimensions st) * of_int (fst b - fst a)"
    by (simp add: selection_visible [OF va vb])
  with first show ?thesis by blast
qed

theorem handleSelectionChanged_swap_witness:
  "(set (selectionContainer (handleSelectionChanged example_services (Some (1, 0)) (Some (2, 0)) False example_renderer)) =
          set (selectionContainer (handleSelectionChanged example_services (Some (2, 0)) (Some (1, 0)) False example_renderer))
          \<longleftrightarrow> ((1::int, 0::int) = (2, 0))) \<and>
     sel_width (hd (selectionContainer
                             (handleSelectionChanged example_services (Some (1, 0)) (Some (2, 0)) False example_renderer))) = 9"
  using handleSelectionChanged_swap [of "(1, 0)" example_services "(2, 0)" example_renderer]
  by (simp add: example_services_def example_renderer_def example_dimensions_def)

text \<open>
  C1 as stated fails: the selection from \<open>(2, 0)\<close> to \<open>(1, 0)\<close> and the one from \<open>(1, 0)\<close> to
  \<open>(2, 0)\<close> give different rectangles, and the former's rectangle has a negative width.
\<close>

theorem selection_not_normalized:
  "set (selectionContainer
          (handleSelectionChanged example_services (Some (2, 0)) (Some (1, 0)) False
             example_renderer)) \<noteq>
   set (selectionContainer
          (handleSelectionChanged example_services (Some (1, 0)) (Some (2, 0)) False
             example_renderer)) \<and>
   sel_width (hd (selectionContainer
                    (handleSelectionChanged example_services (Some (2, 0)) (Some (1, 0)) False
                       example_renderer))) = - 9"
  by (simp add: handleSelectionChanged_def example_services_def Let_def
      createSelectionElement_def example_renderer_def example_dimensions_def doubleton_eq_iff)

section \<open>Font metrics\<close>

lemma measure_collection_spec:
  "length (measure_collection sv lo up coll pos i fm) = length fm \<and>
   (\<forall>j. j < pos + i \<or> pos + length coll \<le> j \<longrightarrow>
        measure_collection sv lo up coll pos i fm ! j = fm ! j) \<and>
   (\<forall>j. pos + i \<le> j \<and> j < pos + length coll \<and> j < length fm \<longrightarrow>
        measure_collection sv lo up coll pos i fm ! j \<in> {0, 1})"
proof (induction sv lo up coll pos i fm rule: measure_collection.induct)
  case (1 sv lo up coll pos i fm)
  show ?case
  proof (cases "i < length coll")
    case False
    then show ?thesis by (subst (1 2 3) measure_collection.simps) auto
  next
    case True
    define v :: "8 word" where
      "v = (if measured_width sv (coll ! i) < lo \<or> measured_width sv (coll ! i) > up then 1 else 0)"
    let ?fm' = "fm[i + pos := v]"
    let ?r = "measure_collection sv lo up coll pos (i + 1) ?fm'"
    have unfold: "measure_collection sv lo up coll pos i fm = ?r"
      using True by (subst measure_collection.simps) (simp add: v_def Let_def)
    from "1.IH" [OF True refl] have IH:
      "length ?r = length ?fm'"
      "\<And>j. j < pos + (i + 1) \<or> pos + length coll \<le> j \<Longrightarrow> ?r ! j = ?fm' ! j"
      "\<And>j. pos + (i + 1) \<le> j \<and> j < pos + length coll \<and> j < length ?fm' \<Longrightarrow> ?r ! j \<in> {0, 1}"
      unfolding v_def by blast+
    have v01: "v \<in> {0, 1}" by (simp add: v_def)
    have a: "length ?r = length fm" using IH(1) by simp
    have b: "?r ! j = fm ! j" if "j < pos + i \<or> pos + length coll \<le> j" for j
    proof -
      from that True have "j \<noteq> i + pos" by auto
      moreover from that have "?r ! j = ?fm' ! j" by (intro IH(2)) auto
      ultimately show ?thesis by simp
    qed
    have c: "?r ! j \<in> {0, 1}" if "pos + i \<le> j \<and> j < pos + length coll \<and> j < length fm" for j
    proof (cases "j = pos + i")
      case True
      then have "?r ! j = ?fm' ! j" by (intro IH(2)) simp
      also have "\<dots> = v" using True that by (simp add: add.commute)
      finally show ?thesis using v01 by simp
    next
      case False
      with that show ?thesis by (intro IH(3)) simp
    qed
    from a b c show ?thesis unfolding unfold by blast
  qed
qed

text \<open>One call with the helpers element present.\<close>

lemma batchedMetrics_step:
  assumes h: "helpers_present sv" and len: "length (fontMetrics st) = 256"
    and p: "metricsPos st < 256"
  shows "fst (batchedMetrics sv st) = (metricsPos st + 30 < 256) \<and>
         metricsPos (snd (batchedMetrics sv st)) =
           (if metricsPos st + 30 < 256 then metricsPos st + 30 else 32) \<and>
         length (fontMetrics (snd (batchedMetrics sv st))) = 256 \<and>
         (\<forall>j. j < metricsPos st \<or> min (metricsPos st + 30) 256 \<le> j \<longrightarrow>
              fontMetrics (snd (batchedMetrics sv st)) ! j = fontMetrics st ! j) \<and>
         (\<forall>j. metricsPos st \<le> j \<and> j < min (metricsPos st + 30) 256 \<longrightarrow>
              fontMetrics (snd (batchedMetrics sv st)) ! j \<in> {0, 1})"
proof -
  define lo where "lo = 10 * css_cell_width (dimensions st) * (1 - 0.005)"
  define up where "up = 10 * css_cell_width (dimensions st) * (1 + 0.005)"
  define e where "e = min (metricsPos st + 30) 256"
  define fm' where
    "fm' = measure_collection sv lo up [metricsPos st..<e] (metricsPos st) 0 (fontMetrics st)"
  have le: "length [metricsPos st..<e] = e - metricsPos st" by simp
  have pe: "metricsPos st + (e - metricsPos st) = e" using p by (simp add: e_def)
  from measure_collection_spec [of sv lo up "[metricsPos st..<e]" "metricsPos st" 0 "fontMetrics st"]
  have spec: "length fm' = 256"
    "\<And>j. j < metricsPos st \<or> e \<le> j \<Longrightarrow> fm' ! j = fontMetrics st ! j"
    "\<And>j. metricsPos st \<le> j \<and> j < e \<Longrightarrow> fm' ! j \<in> {0, 1}"
    unfolding fm'_def [symmetric] le pe using len by (auto simp: e_def)
  have res: "batchedMetrics sv st =
      (if e \<ge> 256 then (False, st\<lparr>fontMetrics := fm', metricsPos := 32\<rparr>)
       else (True, st\<lparr>fontMetrics := fm', metricsPos := e\<rparr>))"
    using h by (simp add: batchedMetrics_def Let_def lo_def up_def e_def fm'_def)
  have e256: "e \<ge> 256 \<longleftrightarrow> \<not> metricsPos st + 30 < 256" by (auto simp: e_def)
  show ?thesis
    using spec unfolding res e256 by (auto simp: e_def)
qed

lemma run_batches_from:
  assumes "\<forall>sv \<in> set svs. helpers_present sv"
    and "length (fontMetrics st) = 256"
    and "metricsPos st = 32 + 30 * k"
    and "k + length svs = 8" and "svs \<noteq> []"
    and "\<forall>j<32. fontMetrics st ! j = 0xFF"
    and "\<forall>j. 32 \<le> j \<and> j < 32 + 30 * k \<longrightarrow> fontMetrics st ! j \<noteq> 0xFF"
  shows "fst (run_batches svs st) = replicate (length svs - 1) True @ [False] \<and>
         metricsPos (snd (run_batches svs st)) = 32 \<and>
         (\<forall>j<32. fontMetrics (snd (run_batches svs st)) ! j = 0xFF) \<and>
         (\<forall>j. 32 \<le> j \<and> j < 256 \<longrightarrow> fontMetrics (snd (run_batches svs st)) ! j \<noteq> 0xFF)"
  using assms
proof (induction svs arbitrary: st k)
  case Nil
  then show ?case by simp
next
  case (Cons sv svs)
  let ?st' = "snd (batchedMetrics sv st)"
  from Cons.prems have h: "helpers_present sv" and len: "length (fontMetrics st) = 256"
    and pos: "metricsPos st = 32 + 30 * k" and k: "k + length svs = 7" by simp_all
  from pos k have p: "metricsPos st < 256" by simp
  note step = batchedMetrics_step [OF h len p]
  have low: "\<forall>j<32. fontMetrics ?st' ! j = 0xFF"
    using step Cons.prems(6) pos by simp
  have done_before: "fontMetrics ?st' ! j \<noteq> 0xFF" if "32 \<le> j" "j < 32 + 30 * k" for j
  proof -
    from that pos have "fontMetrics ?st' ! j = fontMetrics st ! j" using step by simp
    with that Cons.prems(7) show ?thesis by simp
  qed
  have done_now: "fontMetrics ?st' ! j \<noteq> 0xFF"
    if "32 + 30 * k \<le> j" "j < min (32 + 30 * k + 30) 256" for j
  proof -
    from that pos have "fontMetrics ?st' ! j \<in> {0, 1}" using step by simp
    then show ?thesis by auto
  qed
  have run: "run_batches (sv # svs) st =
     (fst (batchedMetrics sv st) # fst (run_batches svs ?st'), snd (run_batches svs ?st'))"
    by (simp add: split_beta)
  show ?case
  proof (cases "svs = []")
    case True
    with k have k7: "k = 7" by simp
    have "fst (batchedMetrics sv st) = False" using step pos k7 by simp
    moreover have "metricsPos ?st' = 32" using step pos k7 by simp
    moreover have "\<forall>j. 32 \<le> j \<and> j < 256 \<longrightarrow> fontMetrics ?st' ! j \<noteq> 0xFF"
    proof (intro allI impI)
      fix j :: nat assume j: "32 \<le> j \<and> j < 256"
      show "fontMetrics ?st' ! j \<noteq> 0xFF"
      proof (cases "j < 32 + 30 * k")
        case True
        with j show ?thesis by (intro done_before) simp_all
      next
        case False
        with j k7 show ?thesis by (intro done_now) simp_all
      qed
    qed
    ultimately show ?thesis using True low unfolding run by simp
  next
    case False
    with k have k6: "k < 7" by (cases svs) simp_all
    have again: "fst (batchedMetrics sv st) = True" using step pos k6 by simp
    have pos': "metricsPos ?st' = 32 + 30 * (k + 1)" using step pos k6 by simp
    have len': "length (fontMetrics ?st') = 256" using step by simp
    have d: "\<forall>j. 32 \<le> j \<and> j < 32 + 30 * (k + 1) \<longrightarrow> fontMetrics ?st' ! j \<noteq> 0xFF"
    proof (intro allI impI)
      fix j :: nat assume j: "32 \<le> j \<and> j < 32 + 30 * (k + 1)"
      show "fontMetrics ?st' ! j \<noteq> 0xFF"
      proof (cases "j < 32 + 30 * k")
        case True
        with j show ?thesis by (intro done_before) simp_all
      next
        case False
        with j k6 show ?thesis by (intro done_now) simp_all
      qed
    qed
    from Cons.prems(1) have hs: "\<forall>sv \<in> set svs. helpers_present sv" by simp
    from k have k': "k + 1 + length svs = 8" by simp
    note IH = Cons.IH [OF hs len' pos' k' False low d]
    from False have "length svs - 1 + 1 = length svs" by (cases svs) simp_all
    then have "True # replicate (length svs - 1) True = replicate (length svs) True"
      by (metis Suc_eq_plus1 replicate_Suc)
    with IH again show ?thesis unfolding run by simp
  qed
qed

lemma cacheMetrics_fields:
  "length (fontMetrics st) = 256 \<Longrightarrow>
   length (fontMetrics (cacheMetrics st)) = 256 \<and> metricsPos (cacheMetrics st) = 32 \<and>
   (\<forall>j<256. fontMetrics (cacheMetrics st) ! j = 0xFF)"
  by (simp add: cacheMetrics_def)

text \<open>
  C5, as the code has it. Starting from the table that \<open>_cacheMetrics\<close> leaves (256 entries,
  all \<open>0xFF\<close>, cursor at 32), eight calls of \<open>_batchedMetrics\<close> with the helpers element
  present return \<open>true\<close> seven times and then \<open>false\<close>, and leave no \<open>0xFF\<close> among the
  entries 32 to 255; the entries 0 to 31 are never measured and stay \<open>0xFF\<close>.
\<close>

theorem batchedMetrics_eight_calls:
  assumes "length svs = 8" and "\<forall>sv \<in> set svs. helpers_present sv"
    and "length (fontMetrics st) = 256"
  shows "fst (run_batches svs (cacheMetrics st)) =
           [True, True, True, True, True, True, True, False] \<and>
         (\<forall>j. 32 \<le> j \<and> j < 256 \<longrightarrow>
              fontMetrics (snd (run_batches svs (cacheMetrics st))) ! j \<noteq> 0xFF) \<and>
         (\<forall>j<32. fontMetrics (snd (run_batches svs (cacheMetrics st))) ! j = 0xFF)"
proof -
  note c = cacheMetrics_fields [OF assms(3)]
  from assms(1) have ne: "svs \<noteq> []" by auto
  have "fst (run_batches svs (cacheMetrics st)) = replicate (length svs - 1) True @ [False] \<and>
         metricsPos (snd (run_batches svs (cacheMetrics st))) = 32 \<and>
         (\<forall>j<32. fontMetrics (snd (run_batches svs (cacheMetrics st))) ! j = 0xFF) \<and>
         (\<forall>j. 32 \<le> j \<and> j < 256 \<longrightarrow> fontMetrics (snd (run_batches svs (cacheMetrics st))) ! j \<noteq> 0xFF)"
    using assms(1,2) c ne by (intro run_batches_from [where k = 0]) simp_all
  moreover have "replicate (length svs - 1) True @ [False] =
      [True, True, True, True, True, True, True, False]"
    using assms(1) by (simp add: numeral_eq_Suc)
  ultimately show ?thesis by simp
qed

theorem batchedMetrics_eight_calls_witness:
  "fst (run_batches (replicate 8 example_services) (cacheMetrics example_renderer)) =
     [True, True, True, True, True, True, True, False] \<and>
   fontMetrics (snd (run_batches (replicate 8 example_services)
                       (cacheMetrics example_renderer))) ! 32 \<noteq> 0xFF \<and>
   fontMetrics (snd (run_batches (replicate 8 example_services)
                       (cacheMetrics example_renderer))) ! 255 \<noteq> 0xFF"
proof -
  have len: "length (replicate 8 example_services) = 8" by simp
  have helpers: "\<forall>sv \<in> set (replicate 8 example_services). helpers_present sv"
    by (simp add: example_services_def)
  have table: "length (fontMetrics example_renderer) = 256"
    by (simp add: example_renderer_def)
  note calls = batchedMetrics_eight_calls [OF len helpers table]
  from calls have "fontMetrics (snd (run_batches (replicate 8 example_services)
      (cacheMetrics example_renderer))) ! 32 \<noteq> 0xFF" by simp
  moreover from calls have "fontMetrics (snd (run_batches (replicate 8 example_services)
      (cacheMetrics example_renderer))) ! 255 \<noteq> 0xFF" by simp
  ultimately show ?thesis using calls by simp
qed

text \<open>
  C5 as stated fails: after the eight calls the entry of code point 0 is still \<open>0xFF\<close>.
\<close>

theorem batchedMetrics_unknown_remains:
  "fontMetrics (snd (run_batches (replicate 8 example_services)
                       (cacheMetrics example_renderer))) ! 0 = 0xFF"
proof -
  have "\<forall>j<32. fontMetrics (snd (run_batches (replicate 8 example_services)
                       (cacheMetrics example_renderer))) ! j = 0xFF"
    using run_batches_from [of "replicate 8 example_services" "cacheMetrics example_renderer" 0]
    by (simp add: example_services_def example_renderer_def cacheMetrics_def)
  then show ?thesis by simp
qed

section \<open>Rendering cells from the atlas\<close>

text \<open>
  C7. With the bold flag set, a foreground index below 8 is looked up as \<open>fg + 8\<close>, so the
  atlas row is \<open>fg + 9\<close>; from 8 to 15 the index is unchanged and the row is \<open>fg + 1\<close>;
  without the flag the row is \<open>fg + 1\<close> for every index below 16. The blit of a cell with a
  code from 1 to 255 reads the atlas at that row.
\<close>

theorem cell_colorIndex_bold:
  "(cell_bold BOLD attr \<and> cell_fg attr < 8 \<longrightarrow>
      cell_bold_fg BOLD attr = cell_fg attr + 8 \<and> cell_colorIndex BOLD attr = cell_fg attr + 9) \<and>
   (cell_bold BOLD attr \<and> 8 \<le> cell_fg attr \<and> cell_fg attr < 16 \<longrightarrow>
      cell_bold_fg BOLD attr = cell_fg attr \<and> cell_colorIndex BOLD attr = cell_fg attr + 1) \<and>
   (\<not> cell_bold BOLD attr \<and> cell_fg attr < 16 \<longrightarrow>
      cell_bold_fg BOLD attr = cell_fg attr \<and> cell_colorIndex BOLD attr = cell_fg attr + 1) \<and>
   (0 < cd_code cell \<and> cd_code cell < 256 \<longrightarrow>
      ctx_ops (render_cell d BOLD atlas scw sch cell x y L) =
        ctx_ops L @
        [DrawImage atlas (of_nat (cd_code cell) * scw)
           (of_nat (cell_colorIndex BOLD (cd_attr cell)) * sch) scw sch
           (of_nat x * scw) (of_int y * sch) scw sch])"
  by (simp add: cell_colorIndex_def cell_bold_fg_def render_cell_def Let_def)

theorem cell_colorIndex_bold_witness:
  "(cell_bold 1 262656 \<and> cell_fg 262656 = 1 \<and> cell_colorIndex 1 262656 = 10) \<and>
   (cell_bold 1 266752 \<and> cell_fg 266752 = 9 \<and> cell_colorIndex 1 266752 = 10) \<and>
   (\<not> cell_bold 1 1536 \<and> cell_fg 1536 = 3 \<and> cell_colorIndex 1 1536 = 4) \<and>
   ctx_ops (render_cell 1 1 example_atlas 10 20 (example_cell 262656 65) 2 1 example_layer) =
     ctx_ops example_layer @ [DrawImage example_atlas 650 200 10 20 20 20 10 20]"
  using cell_colorIndex_bold [of 1 262656 "example_cell 262656 65" 1 example_atlas 10 20 2 1 example_layer]
    cell_colorIndex_bold [of 1 266752 "example_cell 262656 65" 1 example_atlas 10 20 2 1 example_layer]
    cell_colorIndex_bold [of 1 1536 "example_cell 262656 65" 1 example_atlas 10 20 2 1 example_layer]
  by (simp add: example_cell_def cell_fg_def cell_bold_def cell_flags_def)

lemma cell_bold_fg_ge: "16 \<le> cell_fg attr \<Longrightarrow> cell_bold_fg B attr = cell_fg attr"
  by (simp add: cell_bold_fg_def)

text \<open>
  C2, as the code has it. For a cell with a foreground index of 16 or more the atlas row
  is 0. If its code is from 1 to 255 the glyph is blitted from row 0 of the atlas, the row
  drawn in the default colour; only a code of 256 or more is drawn as text, and then with
  the fill style \<open>'#ffffff'\<close>.
\<close>

theorem render_cell_extended_color:
  assumes "16 \<le> cell_fg (cd_attr cell)"
  shows "cell_colorIndex B (cd_attr cell) = 0 \<and>
         (0 < cd_code cell \<and> cd_code cell < 256 \<longrightarrow>
            ctx_ops (render_cell d B atlas scw sch cell x y L) =
              ctx_ops L @
              [DrawImage atlas (of_nat (cd_code cell) * scw) 0 scw sch
                 (of_nat x * scw) (of_int y * sch) scw sch]) \<and>
         (256 \<le> cd_code cell \<longrightarrow>
            ctx_ops (render_cell d B atlas scw sch cell x y L) =
              ctx_ops L @
              [FillText (cd_char cell) (of_nat x * scw) (of_int y * sch) White
                 (Courier (16 * d))])"
  using assms
  by (simp add: cell_colorIndex_def cell_bold_fg_ge render_cell_def drawUnicodeChar_def Let_def)

theorem render_cell_extended_color_witness:
  "16 \<le> cell_fg (cd_attr (example_cell 8192 300)) \<and>
   ctx_ops (render_cell 1 1 example_atlas 10 20 (example_cell 8192 300) 3 0 example_layer) =
     ctx_ops example_layer @ [FillText [300] 30 0 White (Courier 16)]"
  using render_cell_extended_color [of "example_cell 8192 300" 1 1 example_atlas 10 20 3 0 example_layer]
  by (simp add: example_cell_def cell_fg_def)

text \<open>
  C2 as stated fails: the cell with code 65 and foreground index 16 is drawn by a blit
  from the atlas, not as text.
\<close>

theorem extended_color_blits_atlas:
  "cell_fg (cd_attr (example_cell 8192 65)) = 16 \<and>
   ctx_ops (render_cell 1 1 example_atlas 10 20 (example_cell 8192 65) 0 0 example_layer) =
     [DrawImage example_atlas 650 0 10 20 0 0 10 20]"
  by (simp add: render_cell_def example_cell_def example_layer_def cell_fg_def cell_bold_def
      cell_flags_def cell_colorIndex_def cell_bold_fg_def Let_def)

text \<open>
  C8. While the atlas is absent, \<open>render\<close> of any row range returns at once: nothing is
  cleared, nothing is drawn and the layer is unchanged.
\<close>

theorem render_not_ready:
  "charAtlas L = None \<Longrightarrow> render d B t startRow endRow L = Inr L"
  by (simp add: render_def Let_def)

theorem render_not_ready_witness:
  "charAtlas example_layer = None \<and>
   render 1 1 example_terminal 0 0 example_layer = Inr example_layer"
  using render_not_ready [of example_layer 1 1 example_terminal 0 0]
  by (simp add: example_layer_def)

lemma render_cell_ops:
  "\<exists>new. ctx_ops (render_cell d B atlas scw sch cell x y L) = ctx_ops L @ new \<and>
         (cd_code cell = 0 \<longrightarrow> new = []) \<and>
         (\<forall>op \<in> set new. op_dest op = Some (of_nat x * scw, of_int y * sch))"
  by (simp add: render_cell_def drawUnicodeChar_def Let_def)

lemma render_line_ops:
  "render_line d B atlas scw sch line y cols x L = Inr L' \<Longrightarrow>
   \<exists>new. ctx_ops L' = ctx_ops L @ new \<and>
     (\<forall>op \<in> set new. \<exists>cells x'. line = Some cells \<and> int x' < cols \<and> x' < length cells \<and>
         cd_code (cells ! x') \<noteq> 0 \<and> op_dest op = Some (of_nat x' * scw, of_int y * sch))"
proof (induction d B atlas scw sch line y cols x L rule: render_line.induct)
  case (1 d B atlas scw sch line y cols x L)
  show ?case
  proof (cases "int x < cols")
    case False
    with "1.prems" have "L' = L" by (subst (asm) render_line.simps) simp
    then show ?thesis by simp
  next
    case True
    with "1.prems" obtain cells where line: "line = Some cells" and x: "x < length cells"
      by (subst (asm) render_line.simps) (auto split: option.splits if_splits)
    let ?L1 = "render_cell d B atlas scw sch (cells ! x) x y L"
    from "1.prems" True line x
    have rest: "render_line d B atlas scw sch line y cols (x + 1) ?L1 = Inr L'"
      by (subst (asm) render_line.simps) simp
    from "1.IH" [OF True line x rest] obtain new2 where
      n2: "ctx_ops L' = ctx_ops ?L1 @ new2"
      and d2: "\<forall>op \<in> set new2. \<exists>cells x'. line = Some cells \<and> int x' < cols \<and>
          x' < length cells \<and> cd_code (cells ! x') \<noteq> 0 \<and>
          op_dest op = Some (of_nat x' * scw, of_int y * sch)" by blast
    from render_cell_ops [of d B atlas scw sch "cells ! x" x y L] obtain new1 where
      n1: "ctx_ops ?L1 = ctx_ops L @ new1"
      and z1: "cd_code (cells ! x) = 0 \<longrightarrow> new1 = []"
      and d1: "\<forall>op \<in> set new1. op_dest op = Some (of_nat x * scw, of_int y * sch)" by auto
    have "\<forall>op \<in> set new1. \<exists>cells x'. line = Some cells \<and> int x' < cols \<and>
          x' < length cells \<and> cd_code (cells ! x') \<noteq> 0 \<and>
          op_dest op = Some (of_nat x' * scw, of_int y * sch)"
    proof
      fix op assume op: "op \<in> set new1"
      with z1 have "cd_code (cells ! x) \<noteq> 0" by auto
      with op d1 line True x show "\<exists>cells x'. line = Some cells \<and> int x' < cols \<and>
          x' < length cells \<and> cd_code (cells ! x') \<noteq> 0 \<and>
          op_dest op = Some (of_nat x' * scw, of_int y * sch)" by blast
    qed
    with d2 have "\<forall>op \<in> set (new1 @ new2). \<exists>cells x'. line = Some cells \<and> int x' < cols \<and>
          x' < length cells \<and> cd_code (cells ! x') \<noteq> 0 \<and>
          op_dest op = Some (of_nat x' * scw, of_int y * sch)" by auto
    moreover from n1 n2 have "ctx_ops L' = ctx_ops L @ (new1 @ new2)" by simp
    ultimately show ?thesis by blast
  qed
qed

lemma render_rows_ops:
  "render_rows d B atlas scw sch t y endRow L = Inr L' \<Longrightarrow>
   \<exists>new. ctx_ops L' = ctx_ops L @ new \<and>
     (\<forall>op \<in> set new. \<exists>y' cells x'. lines_get t (y' + t_ydisp t) = Some cells \<and>
         int x' < t_cols t \<and> x' < length cells \<and> cd_code (cells ! x') \<noteq> 0 \<and>
         op_dest op = Some (of_nat x' * scw, of_int y' * sch))"
proof (induction d B atlas scw sch t y endRow L rule: render_rows.induct)
  case (1 d B atlas scw sch t y endRow L)
  show ?case
  proof (cases "y \<le> endRow")
    case False
    with "1.prems" have "L' = L" by (subst (asm) render_rows.simps) simp
    then show ?thesis by simp
  next
    case True
    let ?line = "lines_get t (y + t_ydisp t)"
    from "1.prems" True obtain L1 where
      l1: "render_line d B atlas scw sch ?line y (t_cols t) 0 L = Inr L1"
      and rest: "render_rows d B atlas scw sch t (y + 1) endRow L1 = Inr L'"
      by (subst (asm) render_rows.simps) (auto simp: Let_def split: sum.splits)
    from "1.IH" [OF True refl refl l1 rest] obtain new2 where
      n2: "ctx_ops L' = ctx_ops L1 @ new2"
      and d2: "\<forall>op \<in> set new2. \<exists>y' cells x'. lines_get t (y' + t_ydisp t) = Some cells \<and>
         int x' < t_cols t \<and> x' < length cells \<and> cd_code (cells ! x') \<noteq> 0 \<and>
         op_dest op = Some (of_nat x' * scw, of_int y' * sch)" by blast
    from render_line_ops [OF l1] obtain new1 where
      n1: "ctx_ops L1 = ctx_ops L @ new1"
      and d1: "\<forall>op \<in> set new1. \<exists>cells x'. ?line = Some cells \<and> int x' < t_cols t \<and>
         x' < length cells \<and> cd_code (cells ! x') \<noteq> 0 \<and>
         op_dest op = Some (of_nat x' * scw, of_int y * sch)" by blast
    from d1 have "\<forall>op \<in> set new1. \<exists>y' cells x'. lines_get t (y' + t_ydisp t) = Some cells \<and>
         int x' < t_cols t \<and> x' < length cells \<and> cd_code (cells ! x') \<noteq> 0 \<and>
         op_dest op = Some (of_nat x' * scw, of_int y' * sch)" by blast
    with d2 have "\<forall>op \<in> set (new1 @ new2). \<exists>y' cells x'.
         lines_get t (y' + t_ydisp t) = Some cells \<and>
         int x' < t_cols t \<and> x' < length cells \<and> cd_code (cells ! x') \<noteq> 0 \<and>
         op_dest op = Some (of_nat x' * scw, of_int y' * sch)" by auto
    moreover from n1 n2 have "ctx_ops L' = ctx_ops L @ (new1 @ new2)" by simp
    ultimately show ?thesis by blast
  qed
qed


text \<open>
  C9. A cell whose code is 0 leaves the layer as it is, and a completed \<open>render\<close> makes no
  blit and draws no text at the position of such a cell (the scaled cell size being
  non-zero, so that positions tell cells apart).
\<close>

theorem render_skips_unset_cell:
  assumes r: "render d B t startRow endRow L = Inr L'"
    and line: "lines_get t (y + t_ydisp t) = Some cells"
    and x: "x < length cells"
    and code: "cd_code (cells ! x) = 0"
    and w: "of_int \<lceil>charMeasure_width t\<rceil> * d \<noteq> 0"
    and h: "of_int \<lceil>charMeasure_height t\<rceil> * d \<noteq> 0"
  shows "render_cell d B atlas (of_int \<lceil>charMeasure_width t\<rceil> * d)
           (of_int \<lceil>charMeasure_height t\<rceil> * d) (cells ! x) x y L0 = L0 \<and>
         (\<exists>new. ctx_ops L' = ctx_ops L @ new \<and>
            (\<forall>op \<in> set new. op_dest op \<noteq>
               Some (of_nat x * (of_int \<lceil>charMeasure_width t\<rceil> * d),
                     of_int y * (of_int \<lceil>charMeasure_height t\<rceil> * d))))"
proof -
  let ?scw = "of_int \<lceil>charMeasure_width t\<rceil> * d"
  let ?sch = "of_int \<lceil>charMeasure_height t\<rceil> * d"
  have cell: "render_cell d B atlas ?scw ?sch (cells ! x) x y L0 = L0"
    using code by (simp add: render_cell_def)
  have "\<exists>new. ctx_ops L' = ctx_ops L @ new \<and>
            (\<forall>op \<in> set new. op_dest op \<noteq> Some (of_nat x * ?scw, of_int y * ?sch))"
  proof (cases "charAtlas L")
    case None
    with r have "L' = L" by (simp add: render_def Let_def)
    then show ?thesis by simp
  next
    case (Some a)
    let ?clear = "ClearRect 0 (of_int startRow * ?sch) (?scw * of_int (t_cols t))
                    (of_int (endRow - startRow + 1) * ?sch) :: image_bitmap draw_op"
    let ?L2 = "L\<lparr>ctx_fillStyle := White, ctx_textBaseline := Top, ctx_font := Courier (16 * d),
                 ctx_ops := ctx_ops L @ [?clear]\<rparr>"
    from r Some have rr: "render_rows d B a ?scw ?sch t startRow endRow ?L2 = Inr L'"
      by (simp add: render_def Let_def)
    from render_rows_ops [OF rr] obtain new where
      n: "ctx_ops L' = ctx_ops ?L2 @ new"
      and dd: "\<forall>op \<in> set new. \<exists>y' cells x'. lines_get t (y' + t_ydisp t) = Some cells \<and>
         int x' < t_cols t \<and> x' < length cells \<and> cd_code (cells ! x') \<noteq> 0 \<and>
         op_dest op = Some (of_nat x' * ?scw, of_int y' * ?sch)" by blast
    have "op_dest op \<noteq> Some (of_nat x * ?scw, of_int y * ?sch)" if "op \<in> set new" for op
    proof
      assume eq: "op_dest op = Some (of_nat x * ?scw, of_int y * ?sch)"
      from dd that obtain y' cells' x' where
        l': "lines_get t (y' + t_ydisp t) = Some cells'"
        and c': "cd_code (cells' ! x') \<noteq> 0"
        and o': "op_dest op = Some (of_nat x' * ?scw, of_int y' * ?sch)" by blast
      from eq o' have "real x' * ?scw = real x * ?scw" "real_of_int y' * ?sch = real_of_int y * ?sch"
        by simp_all
      with w h have "x' = x" "y' = y" by simp_all
      with l' line c' code show False by simp
    qed
    then have "\<forall>op \<in> set (?clear # new). op_dest op \<noteq> Some (of_nat x * ?scw, of_int y * ?sch)"
      by simp
    moreover from n have "ctx_ops L' = ctx_ops L @ (?clear # new)" by simp
    ultimately show ?thesis by blast
  qed
  with cell show ?thesis by blast
qed

lemma render_example:
  "render 1 1 example_terminal 0 0 (example_layer\<lparr>charAtlas := Some example_atlas\<rparr>) =
     Inr (example_layer\<lparr>charAtlas := Some example_atlas, ctx_fillStyle := White,
            ctx_textBaseline := Top, ctx_font := Courier 16,
            ctx_ops := [ClearRect 0 0 20 20, DrawImage example_atlas 650 40 10 20 0 0 10 20]\<rparr>)"
  by (simp add: render_def example_terminal_def example_layer_def Let_def render_rows.simps
      render_line.simps lines_get_def render_cell_def example_cell_def cell_fg_def cell_bold_def
      cell_flags_def cell_colorIndex_def cell_bold_fg_def)

theorem render_skips_unset_cell_witness:
  "render 1 1 example_terminal 0 0 (example_layer\<lparr>charAtlas := Some example_atlas\<rparr>) =
     Inr (example_layer\<lparr>charAtlas := Some example_atlas, ctx_fillStyle := White,
            ctx_textBaseline := Top, ctx_font := Courier 16,
            ctx_ops := [ClearRect 0 0 20 20, DrawImage example_atlas 650 40 10 20 0 0 10 20]\<rparr>) \<and>
   cd_code ([example_cell 512 65, example_cell 0 0] ! 1) = 0 \<and>
   (\<exists>new. [ClearRect 0 0 20 20, DrawImage example_atlas 650 40 10 20 0 0 10 20] = [] @ new \<and>
      (\<forall>op \<in> set new. op_dest op \<noteq> Some (10, 0)))"
  using render_skips_unset_cell [of 1 1 example_terminal 0 0
      "example_layer\<lparr>charAtlas := Some example_atlas\<rparr>"
      "example_layer\<lparr>charAtlas := Some example_atlas, ctx_fillStyle := White,
            ctx_textBaseline := Top, ctx_font := Courier 16,
            ctx_ops := [ClearRect 0 0 20 20, DrawImage example_atlas 650 40 10 20 0 0 10 20]\<rparr>"
      0 "[example_cell 512 65, example_cell 0 0]" 1 example_atlas example_layer]
    render_example
  by (simp add: example_terminal_def lines_get_def example_cell_def example_layer_def)

section \<open>Atlas generation\<close>

lemma resize_twice:
  assumes "pending L = []"
  shows "pending (resize d t2 w2 h2 True (resize d t1 w1 h1 True L)) =
           [snd (generate d g (charMeasure_width t1) (charMeasure_height t1)),
            snd (generate d g (charMeasure_width t2) (charMeasure_height t2))] \<and>
         charAtlas (resize d t2 w2 h2 True (resize d t1 w1 h1 True L)) = None"
  using assms by (simp add: resize_def Let_def split_beta generate_def)

text \<open>
  C3, as the code has it. Every resolution installs its bitmap, whatever has been requested
  since. After two requests in succession the atlas is absent; when the first result
  resolves it is installed; if the second resolves after it, the second ends up installed;
  if the first resolves last, the first does.
\<close>

theorem atlas_resolution_installs:
  assumes "pending L = []"
  shows "(\<forall>k M. k < length (pending M) \<longrightarrow>
            charAtlas (atlas_resolved k M) = Some (pending M ! k)) \<and>
         charAtlas (resize d t2 w2 h2 True (resize d t1 w1 h1 True L)) = None \<and>
         charAtlas (atlas_resolved 0 (resize d t2 w2 h2 True (resize d t1 w1 h1 True L))) =
           Some (snd (generate d g (charMeasure_width t1) (charMeasure_height t1))) \<and>
         charAtlas (atlas_resolved 0 (atlas_resolved 0
                      (resize d t2 w2 h2 True (resize d t1 w1 h1 True L)))) =
           Some (snd (generate d g (charMeasure_width t2) (charMeasure_height t2))) \<and>
         charAtlas (atlas_resolved 0 (atlas_resolved 1
                      (resize d t2 w2 h2 True (resize d t1 w1 h1 True L)))) =
           Some (snd (generate d g (charMeasure_width t1) (charMeasure_height t1)))"
  using resize_twice [OF assms, of d t2 w2 h2 t1 w1 h1 g]
  by (simp add: atlas_resolved_def)

theorem atlas_resolution_installs_witness:
  "pending example_layer = [] \<and>
   charAtlas (atlas_resolved 0 (atlas_resolved 0
                (resize 1 example_terminal2 240 120 True
                   (resize 1 example_terminal 200 100 True example_layer)))) =
     Some (snd (generate 1 (charAtlasGenerator example_layer) 12 24))"
  using atlas_resolution_installs [of example_layer 1 example_terminal2 240 120
      example_terminal 200 100 "charAtlasGenerator example_layer"]
  by (simp add: example_layer_def example_terminal_def example_terminal2_def)

text \<open>
  C3 as stated fails: after two requests for different character sizes, the result of the
  first, resolving after the second request was issued, becomes the atlas.
\<close>

theorem stale_atlas_installed:
  "charAtlas (atlas_resolved 0
                (resize 1 example_terminal2 240 120 True
                   (resize 1 example_terminal 200 100 True example_layer))) =
     Some (snd (generate 1 (charAtlasGenerator example_layer) 10 20)) \<and>
   bm_width (snd (generate 1 (charAtlasGenerator example_layer) 10 20)) \<noteq>
   bm_width (snd (generate 1 (charAtlasGenerator example_layer) 12 24))"
proof -
  have "pending example_layer = []" by (simp add: example_layer_def)
  from resize_twice [OF this, of 1 example_terminal2 240 120 example_terminal 200 100
      "charAtlasGenerator example_layer"]
  have "charAtlas (atlas_resolved 0
                (resize 1 example_terminal2 240 120 True
                   (resize 1 example_terminal 200 100 True example_layer))) =
     Some (snd (generate 1 (charAtlasGenerator example_layer) 10 20))"
    by (simp add: atlas_resolved_def example_terminal_def example_terminal2_def)
  moreover have "bm_width (snd (generate 1 (charAtlasGenerator example_layer) 10 20)) \<noteq>
   bm_width (snd (generate 1 (charAtlasGenerator example_layer) 12 24))"
    by (simp add: generate_def Let_def)
  ultimately show ?thesis by blast
qed

lemma color_rows_prefix:
  "\<exists>rest. snd (color_rows scw sch w colorIndex fnt ops) = ops @ rest"
proof (induction scw sch w colorIndex fnt ops rule: color_rows.induct)
  case (1 scw sch w colorIndex fnt ops)
  show ?case
  proof (cases "colorIndex < 16")
    case True
    from "1.IH" [OF True refl refl] show ?thesis
      using True by (subst color_rows.simps) (auto simp: Let_def)
  next
    case False
    then show ?thesis by (subst color_rows.simps) simp
  qed
qed

text \<open>
  C4. For a character of 10 by 20 at device pixel ratio 1, \<open>generate\<close> sizes the canvas, and
  so the bitmap, to 2550 by 340, that is 255 by 17 tiles, while it draws 256 glyphs to a
  row: the glyph of code 255 is drawn at x = 2550, the right edge.
\<close>

theorem generate_canvas_255:
  "bm_width (snd (generate 1 (charAtlasGenerator example_layer) 10 20)) = 2550 \<and>
   bm_height (snd (generate 1 (charAtlasGenerator example_layer) 10 20)) = 340 \<and>
   FillText [255] 2550 0 White (Courier 16)
     \<in> set (bm_content (snd (generate 1 (charAtlasGenerator example_layer) 10 20)))"
proof -
  have "FillText [255] 2550 0 White (Courier 16) \<in> set (draw_ascii 10 0 White (Courier 16))"
    unfolding draw_ascii_def set_map by (rule image_eqI [where x = 255]) simp_all
  moreover obtain rest where
    "snd (color_rows 10 20 2550 0 (Courier 16) (draw_ascii 10 0 White (Courier 16))) =
       draw_ascii 10 0 White (Courier 16) @ rest"
    using color_rows_prefix by blast
  ultimately have "FillText [255] 2550 0 White (Courier 16)
     \<in> set (bm_content (snd (generate 1 (charAtlasGenerator example_layer) 10 20)))"
    by (simp add: generate_def Let_def)
  then show ?thesis by (simp add: generate_def Let_def)
qed

end
